theory Spec2Isabelle
  imports Complex_Main
begin

section \<open>Blind search: the sampling and tracking loop of \<open>solutions.py\<close>\<close>

subsection \<open>Float values and their native comparison\<close>

text \<open>
  The search only compares floats, it does no arithmetic on them. A float is therefore a
  finite number, one of the two infinities, or NaN; \<open>flt_less\<close> and \<open>flt_le\<close> are the
  native \<open><\<close> and \<open><=\<close>: every comparison with NaN is false.
\<close>

datatype pyfloat = NaN | NegInf | Finite real | PosInf

fun is_nan :: "pyfloat \<Rightarrow> bool" where
  "is_nan NaN = True"
| "is_nan _ = False"

fun flt_less :: "pyfloat \<Rightarrow> pyfloat \<Rightarrow> bool" where
  "flt_less NaN _ = False"
| "flt_less _ NaN = False"
| "flt_less NegInf NegInf = False"
| "flt_less NegInf _ = True"
| "flt_less (Finite a) (Finite b) = (a < b)"
| "flt_less (Finite _) PosInf = True"
| "flt_less (Finite _) NegInf = False"
| "flt_less PosInf _ = False"

fun flt_le :: "pyfloat \<Rightarrow> pyfloat \<Rightarrow> bool" where
  "flt_le NaN _ = False"
| "flt_le _ NaN = False"
| "flt_le NegInf _ = True"
| "flt_le (Finite a) (Finite b) = (a \<le> b)"
| "flt_le (Finite _) PosInf = True"
| "flt_le (Finite _) NegInf = False"
| "flt_le PosInf PosInf = True"
| "flt_le PosInf _ = False"

subsection \<open>Errors, objectives and the random source\<close>

datatype py_error = ValueError | IndexError | ObjectiveError

text \<open>
  The objective \<open>fnc\<close> is any callable on the argument list; an exception it raises
  leaves \<open>solve\<close> unhandled, so it is a result of the model.
\<close>

type_synonym objective = "pyfloat list \<Rightarrow> py_error + pyfloat"

text \<open>
  \<open>random_range\<close> draws from numpy's global generator and maps the draws into the
  bounds with float arithmetic. The arrays it returns are taken as given: a source
  \<open>rnd x value_min value_max i\<close> is entry \<open>i\<close> of the array the \<open>x\<close>-th call returns.
\<close>

type_synonym sampler = "nat \<Rightarrow> pyfloat \<Rightarrow> pyfloat \<Rightarrow> nat \<Rightarrow> pyfloat"

type_synonym point = "pyfloat \<times> pyfloat \<times> pyfloat"

subsection \<open>The class \<open>Solution\<close>\<close>

record solution =
  dimension :: int
  lower_bound :: pyfloat
  upper_bound :: pyfloat
  parameters :: "pyfloat list"

text \<open>\<open>__init__\<close>: \<open>numpy.zeros\<close> rejects a negative length with a ValueError.\<close>

definition Solution_init :: "int \<Rightarrow> pyfloat \<Rightarrow> pyfloat \<Rightarrow> py_error + solution" where
  "Solution_init d lb ub =
     (if d < 0 then Inl ValueError
      else Inr \<lparr>dimension = d, lower_bound = lb, upper_bound = ub,
                parameters = replicate (nat d) (Finite 0)\<rparr>)"

text \<open>\<open>random_range\<close>: \<open>np.random.rand(n)\<close> rejects a negative \<open>n\<close>.\<close>

definition random_range ::
  "(pyfloat \<Rightarrow> pyfloat \<Rightarrow> nat \<Rightarrow> pyfloat) \<Rightarrow> int \<Rightarrow> pyfloat \<Rightarrow> pyfloat \<Rightarrow> py_error + pyfloat list" where
  "random_range draw n value_min value_max =
     (if n < 0 then Inl ValueError
      else Inr (map (draw value_min value_max) [0..<nat n]))"

subsection \<open>\<open>BlindSearchSolution.solve\<close>\<close>

text \<open>The first loop: one array of \<open>point_count\<close> values for each dimension.\<close>

fun create_params ::
  "sampler \<Rightarrow> solution \<Rightarrow> int \<Rightarrow> nat list \<Rightarrow> pyfloat list list \<Rightarrow> py_error + pyfloat list list" where
  "create_params rnd self point_count [] params = Inr params"
| "create_params rnd self point_count (x # xs) params =
     (case random_range (rnd x) point_count (lower_bound self) (upper_bound self) of
        Inl e \<Rightarrow> Inl e
      | Inr a \<Rightarrow> create_params rnd self point_count xs (params @ [a]))"

text \<open>The inner loop: \<open>arg.append(param[i])\<close> for every array; an index out of range raises.\<close>

fun select_args :: "pyfloat list list \<Rightarrow> nat \<Rightarrow> pyfloat list \<Rightarrow> py_error + pyfloat list" where
  "select_args [] i arg = Inr arg"
| "select_args (param # params) i arg =
     (if i < length param then select_args params i (arg @ [param ! i])
      else Inl IndexError)"

record search_state =
  best_value :: pyfloat
  best_points :: "point list"

text \<open>
  The body of the search loop. The tuple \<open>(arg[0], arg[1], calculated_value)\<close> is built
  after \<open>best_value\<close> is assigned; a missing coordinate raises IndexError.
\<close>

definition search_step ::
  "objective \<Rightarrow> pyfloat list list \<Rightarrow> nat \<Rightarrow> search_state \<Rightarrow> py_error + search_state" where
  "search_step fnc params i st =
     (case select_args params i [] of
        Inl e \<Rightarrow> Inl e
      | Inr arg \<Rightarrow>
          (case fnc arg of
             Inl e \<Rightarrow> Inl e
           | Inr calculated_value \<Rightarrow>
               if flt_less calculated_value (best_value st) then
                 (case arg of
                    a0 # a1 # _ \<Rightarrow>
                      Inr \<lparr>best_value = calculated_value,
                           best_points = best_points st @ [(a0, a1, calculated_value)]\<rparr>
                  | _ \<Rightarrow> Inl IndexError)
               else Inr st))"

fun search_loop ::
  "objective \<Rightarrow> pyfloat list list \<Rightarrow> nat list \<Rightarrow> search_state \<Rightarrow> py_error + search_state" where
  "search_loop fnc params [] st = Inr st"
| "search_loop fnc params (i # is) st =
     (case search_step fnc params i st of
        Inl e \<Rightarrow> Inl e
      | Inr st' \<Rightarrow> search_loop fnc params is st')"

text \<open>
  What a run leaves: the value \<open>solve\<close> returns, the list \<open>best_points\<close> at the end of
  the loop, and whether \<open>visualize\<close> was called with it (plotting itself is not modelled).
\<close>

record outcome =
  return_value :: pyfloat
  trace :: "point list"
  visualized :: bool

definition solve :: "sampler \<Rightarrow> solution \<Rightarrow> int \<Rightarrow> objective \<Rightarrow> py_error + outcome" where
  "solve rnd self point_count fnc =
     (case create_params rnd self point_count [0..<nat (dimension self)] [] of
        Inl e \<Rightarrow> Inl e
      | Inr params \<Rightarrow>
          (case search_loop fnc params [0..<nat point_count]
                  \<lparr>best_value = PosInf, best_points = []\<rparr> of
             Inl e \<Rightarrow> Inl e
           | Inr st \<Rightarrow>
               Inr \<lparr>return_value = best_value st, trace = best_points st,
                    visualized = (dimension self = 2)\<rparr>))"

subsection \<open>The entry point \<open>main.py\<close>\<close>

text \<open>
  \<open>BlindSearchSolution(2, 10, -10)\<close> followed by \<open>solve(20000, sphere)\<close>. The module
  \<open>functions\<close> is not part of the sources, so \<open>sphere\<close> is a parameter.
\<close>

definition main_solution :: "py_error + solution" where
  "main_solution = Solution_init 2 (Finite 10) (Finite (- 10))"

definition main :: "sampler \<Rightarrow> objective \<Rightarrow> py_error + outcome" where
  "main rnd sphere =
     (case main_solution of
        Inl e \<Rightarrow> Inl e
      | Inr solution \<Rightarrow> solve rnd solution 20000 sphere)"

subsection \<open>Notions used to state the properties\<close>

text \<open>
  The value of a trace entry, the \<open>i\<close>-th candidate vector (what \<open>arg\<close> holds in round
  \<open>i\<close>), a strictly decreasing trace, the value of its last entry, and the invariant of
  the search loop.
\<close>

definition point_value :: "point \<Rightarrow> pyfloat" where
  "point_value p = snd (snd p)"

definition candidate :: "sampler \<Rightarrow> solution \<Rightarrow> nat \<Rightarrow> pyfloat list" where
  "candidate rnd self i =
     map (\<lambda>x. rnd x (lower_bound self) (upper_bound self) i) [0..<nat (dimension self)]"

definition decreasing :: "point list \<Rightarrow> bool" where
  "decreasing pts = sorted_wrt (\<lambda>p q. flt_less (point_value q) (point_value p)) pts"

definition trace_inv :: "search_state \<Rightarrow> bool" where
  "trace_inv st \<longleftrightarrow>
     decreasing (best_points st) \<and>
     best_value st = (if best_points st = [] then PosInf else point_value (last (best_points st))) \<and>
     (\<forall>p \<in> set (best_points st). flt_le (best_value st) (point_value p)) \<and>
     (\<forall>p \<in> set (best_points st). flt_less (point_value p) PosInf)"

definition last_value :: "point list \<Rightarrow> pyfloat option" where
  "last_value pts = (case rev pts of [] \<Rightarrow> None | p # _ \<Rightarrow> Some (point_value p))"

subsection \<open>Concrete inputs\<close>

text \<open>
  A random source whose first axis replays a given list (every other axis is 0), three
  objectives, and a solution object of a given dimension with bounds 0 and 10.
\<close>

definition fixed_sampler :: "pyfloat list \<Rightarrow> sampler" where
  "fixed_sampler xs x value_min value_max i =
     (if x = 0 \<and> i < length xs then xs ! i else Finite 0)"

definition first_coordinate :: objective where
  "first_coordinate arg = (case arg of [] \<Rightarrow> Inl IndexError | a # _ \<Rightarrow> Inr a)"

definition constant_objective :: "pyfloat \<Rightarrow> objective" where
  "constant_objective c arg = Inr c"

definition nan_at_zero :: objective where
  "nan_at_zero arg =
     (case arg of [] \<Rightarrow> Inl IndexError
      | a # _ \<Rightarrow> if a = Finite 0 then Inr NaN else Inr a)"

definition example_solution :: "int \<Rightarrow> solution" where
  "example_solution d =
     \<lparr>dimension = d, lower_bound = Finite 0, upper_bound = Finite 10,
      parameters = replicate (nat d) (Finite 0)\<rparr>"

section \<open>Properties\<close>

subsection \<open>The float order\<close>

lemma flt_less_trans: "flt_less a b \<Longrightarrow> flt_less b c \<Longrightarrow> flt_less a c"
  by (cases a; cases b; cases c; simp)

lemma flt_less_le_trans: "flt_less a b \<Longrightarrow> flt_le b c \<Longrightarrow> flt_less a c"
  by (cases a; cases b; cases c; simp)

lemma flt_le_trans: "flt_le a b \<Longrightarrow> flt_le b c \<Longrightarrow> flt_le a c"
  by (cases a; cases b; cases c; simp)

lemma flt_less_imp_le: "flt_less a b \<Longrightarrow> flt_le a b"
  by (cases a; cases b; simp)

lemma flt_le_refl: "\<not> is_nan a \<Longrightarrow> flt_le a a"
  by (cases a; simp)

lemma flt_not_less_le: "\<not> is_nan a \<Longrightarrow> \<not> is_nan b \<Longrightarrow> \<not> flt_less a b \<Longrightarrow> flt_le b a"
  by (cases a; cases b; simp)

lemma flt_less_not_nan: "flt_less a b \<Longrightarrow> \<not> is_nan a \<and> \<not> is_nan b"
  by (cases a; cases b; simp)

lemma flt_less_irrefl: "\<not> flt_less a a"
  by (cases a; simp)

lemma flt_less_PosInf: "flt_less v PosInf \<longleftrightarrow> v \<noteq> NaN \<and> v \<noteq> PosInf"
  by (cases v; simp)

lemma flt_le_not_nan: "flt_le a b \<Longrightarrow> \<not> is_nan a \<and> \<not> is_nan b"
  by (cases a; cases b; simp)

subsection \<open>The two inner loops\<close>

lemma create_params_eq:
  "create_params rnd self n xs acc =
     (if n < 0 \<and> xs \<noteq> [] then Inl ValueError
      else Inr (acc @ map (\<lambda>x. map (rnd x (lower_bound self) (upper_bound self)) [0..<nat n]) xs))"
  by (induction xs arbitrary: acc) (simp_all add: random_range_def)

lemma select_args_eq:
  "select_args ps i acc =
     (if \<forall>p \<in> set ps. i < length p then Inr (acc @ map (\<lambda>p. p ! i) ps) else Inl IndexError)"
  by (induction ps arbitrary: acc) simp_all

lemma select_args_created:
  assumes "create_params rnd self n [0..<nat (dimension self)] [] = Inr ps" and "i < nat n"
  shows "select_args ps i [] = Inr (candidate rnd self i)"
proof -
  from assms(1) have ps: "ps = map (\<lambda>x. map (rnd x (lower_bound self) (upper_bound self)) [0..<nat n]) [0..<nat (dimension self)]"
    by (simp add: create_params_eq split: if_splits)
  show ?thesis using assms(2)
    by (simp add: select_args_eq ps candidate_def comp_def)
qed

subsection \<open>The search loop\<close>

lemma search_step_cases:
  assumes "search_step fnc ps i st = Inr st'"
  obtains (keep) arg v where "select_args ps i [] = Inr arg" "fnc arg = Inr v"
      "\<not> flt_less v (best_value st)" "st' = st"
  | (improve) a0 a1 rest v where "select_args ps i [] = Inr (a0 # a1 # rest)"
      "fnc (a0 # a1 # rest) = Inr v" "flt_less v (best_value st)"
      "st' = \<lparr>best_value = v, best_points = best_points st @ [(a0, a1, v)]\<rparr>"
proof -
  from assms obtain arg where arg: "select_args ps i [] = Inr arg"
    by (cases "select_args ps i []") (simp_all add: search_step_def)
  from assms arg obtain v where v: "fnc arg = Inr v"
    by (cases "fnc arg") (simp_all add: search_step_def)
  show thesis
  proof (cases "flt_less v (best_value st)")
    case False
    with assms arg v have "st' = st" by (simp add: search_step_def)
    with arg v False show thesis by (rule keep)
  next
    case True
    with assms arg v obtain a0 a1 rest where a: "arg = a0 # a1 # rest"
      by (cases arg; cases "tl arg") (simp_all add: search_step_def)
    with assms arg v True
    have "st' = \<lparr>best_value = v, best_points = best_points st @ [(a0, a1, v)]\<rparr>"
      by (simp add: search_step_def)
    with arg v True a show thesis by (auto intro: improve)
  qed
qed

lemma trace_inv_init: "trace_inv \<lparr>best_value = PosInf, best_points = []\<rparr>"
  by (simp add: trace_inv_def decreasing_def)

lemma trace_inv_not_nan: "trace_inv st \<Longrightarrow> \<not> is_nan (best_value st)"
  by (cases "best_points st = []") (auto simp: trace_inv_def dest: flt_less_not_nan)

lemma trace_inv_step:
  assumes "search_step fnc ps i st = Inr st'" and "trace_inv st"
  shows "trace_inv st'"
  using assms(1)
proof (cases rule: search_step_cases)
  case keep
  with assms(2) show ?thesis by simp
next
  case (improve a0 a1 rest v)
  have lt: "\<forall>p \<in> set (best_points st). flt_less v (point_value p)"
    using assms(2) improve(3) by (auto simp: trace_inv_def intro: flt_less_le_trans)
  have nn: "\<not> is_nan v" using improve(3) by (auto dest: flt_less_not_nan)
  have inf: "flt_less v PosInf"
    using improve(3) by (cases v; cases "best_value st"; simp)
  show ?thesis
    using assms(2) lt nn inf
    by (auto simp: trace_inv_def decreasing_def improve(4) sorted_wrt_append point_value_def
        intro: flt_less_imp_le flt_le_refl)
qed

lemma search_loop_inv:
  assumes "search_loop fnc ps js st = Inr st'" and "trace_inv st"
  shows "trace_inv st'"
  using assms
proof (induction js arbitrary: st)
  case Nil
  then show ?case by simp
next
  case (Cons i js)
  then show ?case
    by (auto split: sum.splits dest: trace_inv_step)
qed

lemma search_step_le:
  assumes "search_step fnc ps i st = Inr st'" and "\<not> is_nan (best_value st)"
  shows "flt_le (best_value st') (best_value st)"
  using assms(1)
proof (cases rule: search_step_cases)
  case keep
  with assms(2) show ?thesis by (simp add: flt_le_refl)
next
  case improve
  then show ?thesis by (simp add: flt_less_imp_le)
qed

lemma search_step_value:
  assumes "search_step fnc ps i st = Inr st'" and "\<not> is_nan (best_value st)"
  shows "\<exists>arg v. select_args ps i [] = Inr arg \<and> fnc arg = Inr v \<and>
           (\<not> is_nan v \<longrightarrow> flt_le (best_value st') v)"
  using assms(1)
proof (cases rule: search_step_cases)
  case (keep arg v)
  with assms(2) show ?thesis by (auto intro: flt_not_less_le)
next
  case (improve a0 a1 rest v)
  then show ?thesis by (auto intro: flt_le_refl)
qed

lemma search_loop_le:
  assumes "search_loop fnc ps js st = Inr st'" and "trace_inv st"
  shows "flt_le (best_value st') (best_value st)"
  using assms
proof (induction js arbitrary: st)
  case Nil
  then show ?case by (simp add: flt_le_refl trace_inv_not_nan)
next
  case (Cons i js)
  from Cons.prems(1) obtain s1 where s1: "search_step fnc ps i st = Inr s1"
    and rest: "search_loop fnc ps js s1 = Inr st'"
    by (auto split: sum.splits)
  have inv1: "trace_inv s1" using s1 Cons.prems(2) by (rule trace_inv_step)
  have "flt_le (best_value st') (best_value s1)" using rest inv1 by (rule Cons.IH)
  moreover have "flt_le (best_value s1) (best_value st)"
    using s1 trace_inv_not_nan[OF Cons.prems(2)] by (rule search_step_le)
  ultimately show ?case by (rule flt_le_trans)
qed

lemma search_loop_lower_bound:
  assumes "search_loop fnc ps js st = Inr st'" and "trace_inv st" and "i \<in> set js"
  shows "\<exists>arg v. select_args ps i [] = Inr arg \<and> fnc arg = Inr v \<and>
           (\<not> is_nan v \<longrightarrow> flt_le (best_value st') v)"
  using assms
proof (induction js arbitrary: st)
  case Nil
  then show ?case by simp
next
  case (Cons j js)
  from Cons.prems(1) obtain s1 where s1: "search_step fnc ps j st = Inr s1"
    and rest: "search_loop fnc ps js s1 = Inr st'"
    by (auto split: sum.splits)
  have inv1: "trace_inv s1" using s1 Cons.prems(2) by (rule trace_inv_step)
  show ?case
  proof (cases "i = j")
    case True
    from s1 Cons.prems(2) obtain arg v where av: "select_args ps j [] = Inr arg" "fnc arg = Inr v"
      "\<not> is_nan v \<longrightarrow> flt_le (best_value s1) v"
      using search_step_value trace_inv_not_nan by blast
    have "flt_le (best_value st') (best_value s1)" using rest inv1 by (rule search_loop_le)
    with av True show ?thesis by (auto intro: flt_le_trans)
  next
    case False
    with Cons.prems(3) have "i \<in> set js" by simp
    with rest inv1 show ?thesis by (rule Cons.IH)
  qed
qed

lemma search_loop_entries:
  assumes "search_loop fnc ps js st = Inr st'"
  shows "\<exists>qs. best_points st' = best_points st @ qs \<and>
           (\<forall>q \<in> set qs. \<exists>i \<in> set js. \<exists>a0 a1 rest v.
              select_args ps i [] = Inr (a0 # a1 # rest) \<and> fnc (a0 # a1 # rest) = Inr v \<and>
              q = (a0, a1, v))"
  using assms
proof (induction js arbitrary: st)
  case Nil
  then show ?case by simp
next
  case (Cons j js)
  from Cons.prems(1) obtain s1 where s1: "search_step fnc ps j st = Inr s1"
    and rest: "search_loop fnc ps js s1 = Inr st'"
    by (auto split: sum.splits)
  from Cons.IH[OF rest] obtain qs where qs: "best_points st' = best_points s1 @ qs"
    "\<forall>q \<in> set qs. \<exists>i \<in> set js. \<exists>a0 a1 rest v.
              select_args ps i [] = Inr (a0 # a1 # rest) \<and> fnc (a0 # a1 # rest) = Inr v \<and>
              q = (a0, a1, v)"
    by blast
  from s1 show ?case
  proof (cases rule: search_step_cases)
    case keep
    with qs show ?thesis by auto
  next
    case (improve a0 a1 rest v)
    have "best_points st' = best_points st @ ((a0, a1, v) # qs)"
      using qs(1) improve(4) by simp
    moreover have "\<forall>q \<in> set ((a0, a1, v) # qs). \<exists>i \<in> set (j # js). \<exists>a0 a1 rest v.
              select_args ps i [] = Inr (a0 # a1 # rest) \<and> fnc (a0 # a1 # rest) = Inr v \<and>
              q = (a0, a1, v)"
      using qs(2) improve(1,2) by auto
    ultimately show ?thesis by blast
  qed
qed

lemma search_loop_cong:
  assumes "\<forall>i \<in> set js. select_args ps1 i [] = select_args ps2 i [] \<and>
             (\<forall>arg. select_args ps1 i [] = Inr arg \<longrightarrow> f1 arg = f2 arg)"
  shows "search_loop f1 ps1 js st = search_loop f2 ps2 js st"
  using assms
proof (induction js arbitrary: st)
  case Nil
  then show ?case by simp
next
  case (Cons j js)
  have "search_step f1 ps1 j st = search_step f2 ps2 j st"
    using Cons.prems by (auto simp: search_step_def split: sum.splits)
  moreover have "\<And>s. search_loop f1 ps1 js s = search_loop f2 ps2 js s"
    using Cons.prems by (intro Cons.IH) simp
  ultimately show ?case by (simp split: sum.splits)
qed

subsection \<open>From the loop to \<open>solve\<close>\<close>

lemma solve_Inr_cases:
  assumes "solve rnd self pc fnc = Inr r"
  obtains ps st where
    "create_params rnd self pc [0..<nat (dimension self)] [] = Inr ps"
    "search_loop fnc ps [0..<nat pc] \<lparr>best_value = PosInf, best_points = []\<rparr> = Inr st"
    "return_value r = best_value st" "trace r = best_points st"
    "visualized r = (dimension self = 2)"
proof -
  from assms obtain ps where ps: "create_params rnd self pc [0..<nat (dimension self)] [] = Inr ps"
    by (cases "create_params rnd self pc [0..<nat (dimension self)] []") (simp_all add: solve_def)
  from assms ps obtain st where
    st: "search_loop fnc ps [0..<nat pc] \<lparr>best_value = PosInf, best_points = []\<rparr> = Inr st"
    by (cases "search_loop fnc ps [0..<nat pc] \<lparr>best_value = PosInf, best_points = []\<rparr>")
       (simp_all add: solve_def)
  from assms ps st
  have "r = \<lparr>return_value = best_value st, trace = best_points st,
              visualized = (dimension self = 2)\<rparr>"
    by (simp add: solve_def)
  then have "return_value r = best_value st" "trace r = best_points st"
    "visualized r = (dimension self = 2)"
    by simp_all
  with ps st show thesis by (rule that)
qed

lemma solve_inv:
  assumes "solve rnd self pc fnc = Inr r"
  shows "trace_inv \<lparr>best_value = return_value r, best_points = trace r\<rparr>"
  using assms
proof (cases rule: solve_Inr_cases)
  case (1 ps st)
  from 1(2) trace_inv_init have "trace_inv st" by (rule search_loop_inv)
  moreover have "st = \<lparr>best_value = return_value r, best_points = trace r\<rparr>"
    using 1(3,4) by simp
  ultimately show ?thesis by simp
qed

lemma solve_lower_bound:
  assumes "solve rnd self pc fnc = Inr r" and "i < nat pc"
  shows "\<exists>v. fnc (candidate rnd self i) = Inr v \<and>
           (\<not> is_nan v \<longrightarrow> flt_le (return_value r) v)"
  using assms(1)
proof (cases rule: solve_Inr_cases)
  case (1 ps st)
  from assms(2) have "i \<in> set [0..<nat pc]" by simp
  with 1(2) trace_inv_init
  obtain arg v where "select_args ps i [] = Inr arg" "fnc arg = Inr v"
    "\<not> is_nan v \<longrightarrow> flt_le (best_value st) v"
    using search_loop_lower_bound by blast
  moreover have "select_args ps i [] = Inr (candidate rnd self i)"
    using 1(1) assms(2) by (rule select_args_created)
  ultimately show ?thesis using 1(3) by auto
qed

lemma solve_entries:
  assumes "solve rnd self pc fnc = Inr r" and "p \<in> set (trace r)"
  shows "\<exists>i<nat pc. \<exists>a0 a1 rest v. candidate rnd self i = a0 # a1 # rest \<and>
           fnc (candidate rnd self i) = Inr v \<and> p = (a0, a1, v)"
  using assms(1)
proof (cases rule: solve_Inr_cases)
  case (1 ps st)
  from search_loop_entries[OF 1(2)] assms(2) 1(4)
  obtain i a0 a1 rest v where i: "i \<in> set [0..<nat pc]"
    and sel: "select_args ps i [] = Inr (a0 # a1 # rest)"
    and v: "fnc (a0 # a1 # rest) = Inr v" and p: "p = (a0, a1, v)"
    by auto
  from i have lt: "i < nat pc" by simp
  have "select_args ps i [] = Inr (candidate rnd self i)"
    using 1(1) lt by (rule select_args_created)
  with sel have "candidate rnd self i = a0 # a1 # rest" by simp
  with v p lt show ?thesis by auto
qed

lemma trace_inv_empty_iff:
  assumes "trace_inv st"
  shows "best_points st = [] \<longleftrightarrow> best_value st = PosInf"
proof
  assume "best_points st = []"
  with assms show "best_value st = PosInf" by (simp add: trace_inv_def)
next
  assume inf: "best_value st = PosInf"
  show "best_points st = []"
  proof (rule ccontr)
    assume ne: "best_points st \<noteq> []"
    then have "last (best_points st) \<in> set (best_points st)" by simp
    with assms have "flt_less (point_value (last (best_points st))) PosInf"
      by (simp add: trace_inv_def)
    moreover from assms ne have "best_value st = point_value (last (best_points st))"
      by (simp add: trace_inv_def)
    ultimately show False using inf by simp
  qed
qed

lemma solve_empty_iff:
  assumes "solve rnd self pc fnc = Inr r"
  shows "trace r = [] \<longleftrightarrow> return_value r = PosInf"
  using trace_inv_empty_iff[OF solve_inv[OF assms]] by simp

lemma solve_last:
  assumes "solve rnd self pc fnc = Inr r" and "trace r \<noteq> []"
  shows "return_value r = point_value (last (trace r))"
  using solve_inv[OF assms(1)] assms(2) by (simp add: trace_inv_def)

lemma last_value_eq: "last_value pts = (if pts = [] then None else Some (point_value (last pts)))"
  by (cases pts rule: rev_cases) (simp_all add: last_value_def)

subsection \<open>Rounds that change nothing\<close>

lemma search_step_no_change:
  assumes "select_args ps i [] = Inr arg" and "fnc arg = Inr v"
    and "\<not> flt_less v (best_value st)"
  shows "search_step fnc ps i st = Inr st"
  using assms by (simp add: search_step_def)

lemma search_loop_no_change:
  assumes "\<forall>i \<in> set js. \<exists>arg v. select_args ps i [] = Inr arg \<and> fnc arg = Inr v \<and>
             \<not> flt_less v (best_value st)"
  shows "search_loop fnc ps js st = Inr st"
  using assms
proof (induction js)
  case Nil
  then show ?case by simp
next
  case (Cons j js)
  then have "search_step fnc ps j st = Inr st"
    by (auto intro: search_step_no_change)
  with Cons show ?case by simp
qed

lemma candidate_two:
  assumes "2 \<le> dimension self"
  shows "\<exists>rest. candidate rnd self i =
           rnd 0 (lower_bound self) (upper_bound self) i #
           rnd 1 (lower_bound self) (upper_bound self) i # rest"
proof -
  from assms have "nat (dimension self) = Suc (Suc (nat (dimension self) - 2))"
    by simp
  then obtain k where k: "nat (dimension self) = Suc (Suc k)" ..
  have e1: "[0..<Suc (Suc k)] = 0 # [Suc 0..<Suc (Suc k)]"
    by (rule upt_conv_Cons) simp
  have e2: "[Suc 0..<Suc (Suc k)] = Suc 0 # [Suc (Suc 0)..<Suc (Suc k)]"
    by (rule upt_conv_Cons) simp
  show ?thesis
    unfolding candidate_def k e1 e2 by simp
qed

lemma solve_constant:
  assumes "1 \<le> point_count" and "2 \<le> dimension self"
  shows "solve rnd self point_count (constant_objective (Finite c)) =
           Inr \<lparr>return_value = Finite c,
                trace = [(rnd 0 (lower_bound self) (upper_bound self) 0,
                          rnd 1 (lower_bound self) (upper_bound self) 0, Finite c)],
                visualized = (dimension self = 2)\<rparr>"
proof -
  let ?ps = "map (\<lambda>x. map (rnd x (lower_bound self) (upper_bound self)) [0..<nat point_count])
               [0..<nat (dimension self)]"
  let ?f = "constant_objective (Finite c)"
  let ?p = "(rnd 0 (lower_bound self) (upper_bound self) 0,
             rnd 1 (lower_bound self) (upper_bound self) 0, Finite c)"
  have ps: "create_params rnd self point_count [0..<nat (dimension self)] [] = Inr ?ps"
    using assms(1) by (simp add: create_params_eq)
  have sel: "\<And>i. i < nat point_count \<Longrightarrow> select_args ?ps i [] = Inr (candidate rnd self i)"
    using ps by (rule select_args_created)
  from assms(1) have idx: "[0..<nat point_count] = 0 # [1..<nat point_count]"
    by (simp add: upt_conv_Cons)
  from candidate_two[OF assms(2)] obtain rest where
    c0: "candidate rnd self 0 = rnd 0 (lower_bound self) (upper_bound self) 0 #
           rnd 1 (lower_bound self) (upper_bound self) 0 # rest"
    by blast
  have first: "search_step ?f ?ps 0 \<lparr>best_value = PosInf, best_points = []\<rparr> =
      Inr \<lparr>best_value = Finite c, best_points = [?p]\<rparr>"
    using sel[of 0] assms(1) c0 by (simp add: search_step_def constant_objective_def)
  have "\<forall>i \<in> set [1..<nat point_count]. \<exists>arg v. select_args ?ps i [] = Inr arg \<and>
          ?f arg = Inr v \<and>
          \<not> flt_less v (best_value \<lparr>best_value = Finite c, best_points = [?p]\<rparr>)"
    using sel by (simp add: constant_objective_def)
  then have "search_loop ?f ?ps [1..<nat point_count]
      \<lparr>best_value = Finite c, best_points = [?p]\<rparr> =
      Inr \<lparr>best_value = Finite c, best_points = [?p]\<rparr>"
    by (rule search_loop_no_change)
  with first idx have "search_loop ?f ?ps [0..<nat point_count]
      \<lparr>best_value = PosInf, best_points = []\<rparr> =
      Inr \<lparr>best_value = Finite c, best_points = [?p]\<rparr>"
    by simp
  with ps show ?thesis by (simp add: solve_def)
qed

lemma candidate_length: "length (candidate rnd self i) = nat (dimension self)"
  by (simp add: candidate_def)

lemma solve_improving_dimension:
  assumes "solve rnd self pc fnc = Inr r" and "i < nat pc"
    and "fnc (candidate rnd self i) = Inr v" and "flt_less v PosInf"
  shows "2 \<le> dimension self"
proof -
  from solve_lower_bound[OF assms(1,2)] assms(3,4) have "flt_le (return_value r) v"
    by (auto dest: flt_less_not_nan)
  with assms(4) have "return_value r \<noteq> PosInf"
    by (cases "return_value r"; cases v; simp)
  with solve_empty_iff[OF assms(1)] have "trace r \<noteq> []" by simp
  then have "last (trace r) \<in> set (trace r)" by simp
  with assms(1) obtain j a0 a1 rest where "candidate rnd self j = a0 # a1 # rest"
    using solve_entries by blast
  then have "2 \<le> length (candidate rnd self j)" by simp
  then show ?thesis by (simp add: candidate_length)
qed

lemma solve_entries_coordinates:
  assumes "solve rnd self pc fnc = Inr r" and "p \<in> set (trace r)"
  shows "\<exists>i<nat pc. fnc (candidate rnd self i) = Inr (point_value p) \<and>
           p = (rnd 0 (lower_bound self) (upper_bound self) i,
                rnd 1 (lower_bound self) (upper_bound self) i, point_value p)"
proof -
  from solve_entries[OF assms] obtain i a0 a1 rest v where i: "i < nat pc"
    and c: "candidate rnd self i = a0 # a1 # rest"
    and v: "fnc (candidate rnd self i) = Inr v" and p: "p = (a0, a1, v)"
    by blast
  from c have "2 \<le> length (candidate rnd self i)" by simp
  then have "2 \<le> dimension self" by (simp add: candidate_length)
  from candidate_two[OF this, of rnd i] c
  have "a0 = rnd 0 (lower_bound self) (upper_bound self) i"
    "a1 = rnd 1 (lower_bound self) (upper_bound self) i"
    by auto
  with i v p show ?thesis by (auto simp: point_value_def)
qed

section \<open>The claims\<close>

text \<open>
  C1 (as stated): the returned best value is below or equal to the value of every
  evaluated candidate. It fails under the native comparison when a value is NaN: the
  objective \<open>nan_at_zero\<close> gives NaN at the first of two candidates and 1 at the second;
  \<open>solve\<close> returns 1, and \<open>1 <= NaN\<close> is false.
\<close>

theorem best_value_not_below_nan:
  "solve (fixed_sampler [Finite 0, Finite 1]) (example_solution 3) 2 nan_at_zero =
     Inr \<lparr>return_value = Finite 1, trace = [(Finite 1, Finite 0, Finite 1)],
          visualized = False\<rparr> \<and>
   nan_at_zero (candidate (fixed_sampler [Finite 0, Finite 1]) (example_solution 3) 0) = Inr NaN \<and>
   \<not> flt_le (Finite 1) NaN"
  by code_simp

text \<open>
  C1 (amended): whenever \<open>solve\<close> returns, every candidate was evaluated, the returned
  best value is below or equal to every evaluated value that is not NaN, and it is
  \<open>+infinity\<close> or the value of one of the candidates.
\<close>

theorem best_value_is_minimum:
  assumes "solve rnd self point_count fnc = Inr r"
  shows "(\<forall>i<nat point_count. \<exists>v. fnc (candidate rnd self i) = Inr v \<and>
            (\<not> is_nan v \<longrightarrow> flt_le (return_value r) v)) \<and>
         (return_value r = PosInf \<or>
          (\<exists>j<nat point_count. fnc (candidate rnd self j) = Inr (return_value r)))"
proof (intro conjI allI impI)
  fix i assume "i < nat point_count"
  with assms show "\<exists>v. fnc (candidate rnd self i) = Inr v \<and>
            (\<not> is_nan v \<longrightarrow> flt_le (return_value r) v)"
    by (rule solve_lower_bound)
next
  show "return_value r = PosInf \<or>
          (\<exists>j<nat point_count. fnc (candidate rnd self j) = Inr (return_value r))"
  proof (cases "trace r = []")
    case True
    with solve_empty_iff[OF assms] show ?thesis by simp
  next
    case False
    then have "last (trace r) \<in> set (trace r)" by simp
    with assms obtain j a0 a1 v where j: "j < nat point_count"
      and v: "fnc (candidate rnd self j) = Inr v" and p: "last (trace r) = (a0, a1, v)"
      using solve_entries by blast
    from solve_last[OF assms False] p have "return_value r = v"
      by (simp add: point_value_def)
    with j v show ?thesis by auto
  qed
qed

theorem best_value_is_minimum_witness:
  "solve (fixed_sampler [Finite 5, Finite 3, Finite 8, Finite 1, Finite 9])
     (example_solution 2) 5 first_coordinate =
     Inr \<lparr>return_value = Finite 1,
          trace = [(Finite 5, Finite 0, Finite 5), (Finite 3, Finite 0, Finite 3),
                   (Finite 1, Finite 0, Finite 1)],
          visualized = True\<rparr> \<and>
   first_coordinate (candidate (fixed_sampler [Finite 5, Finite 3, Finite 8, Finite 1, Finite 9])
     (example_solution 2) 2) = Inr (Finite 8) \<and> \<not> is_nan (Finite 8) \<and>
   flt_le (Finite 1) (Finite 8) \<and>
   first_coordinate (candidate (fixed_sampler [Finite 5, Finite 3, Finite 8, Finite 1, Finite 9])
     (example_solution 2) 3) = Inr (Finite 1)"
proof -
  have run: "solve (fixed_sampler [Finite 5, Finite 3, Finite 8, Finite 1, Finite 9])
     (example_solution 2) 5 first_coordinate =
     Inr \<lparr>return_value = Finite 1,
          trace = [(Finite 5, Finite 0, Finite 5), (Finite 3, Finite 0, Finite 3),
                   (Finite 1, Finite 0, Finite 1)],
          visualized = True\<rparr>"
    by code_simp
  have c2: "first_coordinate (candidate (fixed_sampler [Finite 5, Finite 3, Finite 8, Finite 1, Finite 9])
     (example_solution 2) 2) = Inr (Finite 8)"
    by code_simp
  have c3: "first_coordinate (candidate (fixed_sampler [Finite 5, Finite 3, Finite 8, Finite 1, Finite 9])
     (example_solution 2) 3) = Inr (Finite 1)"
    by code_simp
  from best_value_is_minimum[OF run] have
    "\<forall>i<nat 5. \<exists>v. first_coordinate (candidate (fixed_sampler [Finite 5, Finite 3, Finite 8, Finite 1, Finite 9])
     (example_solution 2) i) = Inr v \<and> (\<not> is_nan v \<longrightarrow> flt_le (Finite 1) v)"
    by simp
  then have "\<exists>v. first_coordinate (candidate (fixed_sampler [Finite 5, Finite 3, Finite 8, Finite 1, Finite 9])
     (example_solution 2) 2) = Inr v \<and> (\<not> is_nan v \<longrightarrow> flt_le (Finite 1) v)"
    by simp
  with c2 have "flt_le (Finite 1) (Finite 8)" by simp
  with run c2 c3 show ?thesis by simp
qed

text \<open>
  C2 (as stated): the trace is non-empty for every valid configuration and the first
  evaluated point is always in it. It fails when no value is below \<open>+infinity\<close>: with an
  objective that is constantly NaN the comparison of the first value with \<open>+infinity\<close>
  is false and the trace stays empty.
\<close>

theorem trace_empty_for_nan_objective:
  "solve (fixed_sampler [Finite 5]) (example_solution 3) 1 (constant_objective NaN) =
     Inr \<lparr>return_value = PosInf, trace = [], visualized = False\<rparr>"
  by code_simp

text \<open>
  C2 (amended): whenever \<open>solve\<close> returns, the values of the trace are strictly decreasing
  in append order; the trace is non-empty exactly when some evaluated value is below
  \<open>+infinity\<close> (neither NaN nor \<open>+infinity\<close>); and when the first evaluated value is below
  \<open>+infinity\<close>, the first point heads the trace.
\<close>

theorem trace_strictly_decreasing:
  assumes "solve rnd self point_count fnc = Inr r"
  shows "decreasing (trace r) \<and>
         (trace r \<noteq> [] \<longleftrightarrow>
            (\<exists>i<nat point_count. \<exists>v. fnc (candidate rnd self i) = Inr v \<and> flt_less v PosInf)) \<and>
         (\<forall>v. 0 < point_count \<and> fnc (candidate rnd self 0) = Inr v \<and> flt_less v PosInf \<longrightarrow>
            (\<exists>a0 a1 rest pts. candidate rnd self 0 = a0 # a1 # rest \<and>
               trace r = (a0, a1, v) # pts))"
proof (intro conjI allI impI)
  from solve_inv[OF assms] show "decreasing (trace r)" by (simp add: trace_inv_def)
next
  show "trace r \<noteq> [] \<longleftrightarrow>
          (\<exists>i<nat point_count. \<exists>v. fnc (candidate rnd self i) = Inr v \<and> flt_less v PosInf)"
  proof
    assume "trace r \<noteq> []"
    then have mem: "last (trace r) \<in> set (trace r)" by simp
    with assms obtain i a0 a1 v where i: "i < nat point_count"
      and v: "fnc (candidate rnd self i) = Inr v" and p: "last (trace r) = (a0, a1, v)"
      using solve_entries by blast
    from solve_inv[OF assms] mem have "flt_less (point_value (last (trace r))) PosInf"
      by (simp add: trace_inv_def)
    with p have "flt_less v PosInf" by (simp add: point_value_def)
    with i v show "\<exists>i<nat point_count. \<exists>v. fnc (candidate rnd self i) = Inr v \<and> flt_less v PosInf"
      by blast
  next
    assume "\<exists>i<nat point_count. \<exists>v. fnc (candidate rnd self i) = Inr v \<and> flt_less v PosInf"
    then obtain i v where i: "i < nat point_count"
      and v: "fnc (candidate rnd self i) = Inr v" and lt: "flt_less v PosInf"
      by blast
    from solve_lower_bound[OF assms i] v lt have "flt_le (return_value r) v"
      by (auto dest: flt_less_not_nan)
    with lt have "return_value r \<noteq> PosInf"
      by (cases "return_value r"; cases v; simp)
    with solve_empty_iff[OF assms] show "trace r \<noteq> []" by simp
  qed
next
  fix v
  assume h: "0 < point_count \<and> fnc (candidate rnd self 0) = Inr v \<and> flt_less v PosInf"
  from assms obtain ps st where
    ps: "create_params rnd self point_count [0..<nat (dimension self)] [] = Inr ps" and
    loop: "search_loop fnc ps [0..<nat point_count] \<lparr>best_value = PosInf, best_points = []\<rparr> = Inr st" and
    tr: "trace r = best_points st"
    by (rule solve_Inr_cases)
  from h have pos: "0 < nat point_count" by simp
  then have idx: "[0..<nat point_count] = 0 # [1..<nat point_count]"
    by (simp add: upt_conv_Cons)
  have sel: "select_args ps 0 [] = Inr (candidate rnd self 0)"
    using ps pos by (rule select_args_created)
  from loop idx obtain s1 where
    s1: "search_step fnc ps 0 \<lparr>best_value = PosInf, best_points = []\<rparr> = Inr s1" and
    rest: "search_loop fnc ps [1..<nat point_count] s1 = Inr st"
    by (auto split: sum.splits)
  from s1 have "\<exists>a0 a1 rest'. candidate rnd self 0 = a0 # a1 # rest' \<and>
      s1 = \<lparr>best_value = v, best_points = [(a0, a1, v)]\<rparr>"
  proof (cases rule: search_step_cases)
    case (keep arg w)
    with sel h show ?thesis by simp
  next
    case (improve a0 a1 rest' w)
    from improve(1) sel have "candidate rnd self 0 = a0 # a1 # rest'" by simp
    moreover from this improve(2) h have "w = v" by simp
    ultimately show ?thesis using improve(4) by simp
  qed
  then obtain a0 a1 rest' where
    c: "candidate rnd self 0 = a0 # a1 # rest'" and
    s1_eq: "s1 = \<lparr>best_value = v, best_points = [(a0, a1, v)]\<rparr>"
    by blast
  from search_loop_entries[OF rest] s1_eq obtain qs where "best_points st = (a0, a1, v) # qs"
    by auto
  with c tr show "\<exists>a0 a1 rest pts. candidate rnd self 0 = a0 # a1 # rest \<and>
               trace r = (a0, a1, v) # pts"
    by simp
qed

theorem trace_strictly_decreasing_witness:
  "solve (fixed_sampler [Finite 5, Finite 3, Finite 8, Finite 1, Finite 9])
     (example_solution 2) 5 first_coordinate =
     Inr \<lparr>return_value = Finite 1,
          trace = [(Finite 5, Finite 0, Finite 5), (Finite 3, Finite 0, Finite 3),
                   (Finite 1, Finite 0, Finite 1)],
          visualized = True\<rparr> \<and>
   (0::int) < 5 \<and>
   first_coordinate (candidate (fixed_sampler [Finite 5, Finite 3, Finite 8, Finite 1, Finite 9])
     (example_solution 2) 0) = Inr (Finite 5) \<and>
   flt_less (Finite 5) PosInf \<and>
   decreasing [(Finite 5, Finite 0, Finite 5), (Finite 3, Finite 0, Finite 3),
               (Finite 1, Finite 0, Finite 1)]"
proof -
  have run: "solve (fixed_sampler [Finite 5, Finite 3, Finite 8, Finite 1, Finite 9])
     (example_solution 2) 5 first_coordinate =
     Inr \<lparr>return_value = Finite 1,
          trace = [(Finite 5, Finite 0, Finite 5), (Finite 3, Finite 0, Finite 3),
                   (Finite 1, Finite 0, Finite 1)],
          visualized = True\<rparr>"
    by code_simp
  have c0: "first_coordinate (candidate (fixed_sampler [Finite 5, Finite 3, Finite 8, Finite 1, Finite 9])
     (example_solution 2) 0) = Inr (Finite 5)"
    by code_simp
  from trace_strictly_decreasing[OF run]
  have "decreasing [(Finite 5, Finite 0, Finite 5), (Finite 3, Finite 0, Finite 3),
               (Finite 1, Finite 0, Finite 1)]"
    by simp
  with run c0 show ?thesis by simp
qed

text \<open>
  C3 (as stated): the returned best value is the value of the last trace entry. When no
  value is below \<open>+infinity\<close> the trace has no last entry: with an objective that is
  constantly \<open>+infinity\<close> the run returns \<open>+infinity\<close> and an empty trace.
\<close>

theorem no_last_entry_for_infinite_objective:
  "solve (fixed_sampler [Finite 5, Finite 2]) (example_solution 3) 2 (constant_objective PosInf) =
     Inr \<lparr>return_value = PosInf, trace = [], visualized = False\<rparr> \<and>
   last_value [] \<noteq> Some PosInf"
  by code_simp

text \<open>
  C3 (amended): whenever \<open>solve\<close> returns with a non-empty trace, the returned best value
  is the value of the last trace entry; with an empty trace it is \<open>+infinity\<close>.
\<close>

theorem best_value_is_last_trace_value:
  assumes "solve rnd self point_count fnc = Inr r"
  shows "(trace r = [] \<and> return_value r = PosInf) \<or>
         last_value (trace r) = Some (return_value r)"
proof (cases "trace r = []")
  case True
  with solve_empty_iff[OF assms] show ?thesis by simp
next
  case False
  with solve_last[OF assms False] show ?thesis by (simp add: last_value_eq)
qed

theorem best_value_is_last_trace_value_witness:
  "solve (fixed_sampler [Finite 5, Finite 3, Finite 8, Finite 1, Finite 9])
     (example_solution 2) 5 first_coordinate =
     Inr \<lparr>return_value = Finite 1,
          trace = [(Finite 5, Finite 0, Finite 5), (Finite 3, Finite 0, Finite 3),
                   (Finite 1, Finite 0, Finite 1)],
          visualized = True\<rparr> \<and>
   last_value [(Finite 5, Finite 0, Finite 5), (Finite 3, Finite 0, Finite 3),
               (Finite 1, Finite 0, Finite 1)] = Some (Finite 1)"
proof -
  have run: "solve (fixed_sampler [Finite 5, Finite 3, Finite 8, Finite 1, Finite 9])
     (example_solution 2) 5 first_coordinate =
     Inr \<lparr>return_value = Finite 1,
          trace = [(Finite 5, Finite 0, Finite 5), (Finite 3, Finite 0, Finite 3),
                   (Finite 1, Finite 0, Finite 1)],
          visualized = True\<rparr>"
    by code_simp
  from best_value_is_last_trace_value[OF run] run show ?thesis by simp
qed

text \<open>
  C4 (as stated): with dimension 1, bounds 0 and 10, the candidates 5, 3, 8, 1, 9 and the
  identity objective, \<open>solve\<close> produces a trace of three entries and the best value 1.
  In the code the first candidate improves on \<open>+infinity\<close> and the tuple for the trace
  reads \<open>arg[1]\<close>, which a one-dimensional candidate does not have: the run ends with
  an IndexError.
\<close>

theorem one_dimensional_scenario_raises:
  "solve (fixed_sampler [Finite 5, Finite 3, Finite 8, Finite 1, Finite 9])
     (example_solution 1) 5 first_coordinate = Inl IndexError"
  by code_simp

text \<open>
  C4 (amended): with dimension 2, bounds 0 and 10, candidates whose first coordinates are
  5, 3, 8, 1, 9 in that order (any second coordinates) and the objective returning the
  first coordinate, \<open>solve\<close> produces the trace of the candidates 5, 3 and 1, each with its
  second coordinate and its value, and the best value 1.
\<close>

theorem two_dimensional_scenario:
  assumes "map (rnd 0 (Finite 0) (Finite 10)) [0..<5] =
             [Finite 5, Finite 3, Finite 8, Finite 1, Finite 9]"
  shows "solve rnd (example_solution 2) 5 first_coordinate =
           Inr \<lparr>return_value = Finite 1,
                trace = [(Finite 5, rnd 1 (Finite 0) (Finite 10) 0, Finite 5),
                         (Finite 3, rnd 1 (Finite 0) (Finite 10) 1, Finite 3),
                         (Finite 1, rnd 1 (Finite 0) (Finite 10) 3, Finite 1)],
                visualized = True\<rparr>"
proof -
  have idx: "[0..<5] = [0, 1, 2, 3, 4::nat]" by (simp add: upt_conv_Cons)
  from assms idx have x:
    "rnd 0 (Finite 0) (Finite 10) 0 = Finite 5" "rnd 0 (Finite 0) (Finite 10) 1 = Finite 3"
    "rnd 0 (Finite 0) (Finite 10) 2 = Finite 8" "rnd 0 (Finite 0) (Finite 10) 3 = Finite 1"
    "rnd 0 (Finite 0) (Finite 10) 4 = Finite 9"
    by simp_all
  have two: "[0..<2] = [0, 1::nat]" by (simp add: upt_conv_Cons)
  have params: "create_params rnd (example_solution 2) 5 [0..<nat (dimension (example_solution 2))] [] =
      Inr [[Finite 5, Finite 3, Finite 8, Finite 1, Finite 9],
           map (rnd 1 (Finite 0) (Finite 10)) [0..<5]]"
    using assms by (simp add: create_params_eq example_solution_def two)
  have loop: "search_loop first_coordinate
      [[Finite 5, Finite 3, Finite 8, Finite 1, Finite 9],
       map (rnd 1 (Finite 0) (Finite 10)) [0..<5]]
      [0..<nat 5] \<lparr>best_value = PosInf, best_points = []\<rparr> =
      Inr \<lparr>best_value = Finite 1,
           best_points = [(Finite 5, rnd 1 (Finite 0) (Finite 10) 0, Finite 5),
                          (Finite 3, rnd 1 (Finite 0) (Finite 10) 1, Finite 3),
                          (Finite 1, rnd 1 (Finite 0) (Finite 10) 3, Finite 1)]\<rparr>"
    by (simp add: idx search_step_def first_coordinate_def)
  show ?thesis
    unfolding solve_def params using loop by (simp add: example_solution_def)
qed

theorem two_dimensional_scenario_witness:
  "map (fixed_sampler [Finite 5, Finite 3, Finite 8, Finite 1, Finite 9] 0 (Finite 0) (Finite 10))
     [0..<5] = [Finite 5, Finite 3, Finite 8, Finite 1, Finite 9] \<and>
   solve (fixed_sampler [Finite 5, Finite 3, Finite 8, Finite 1, Finite 9])
     (example_solution 2) 5 first_coordinate =
     Inr \<lparr>return_value = Finite 1,
          trace = [(Finite 5, Finite 0, Finite 5), (Finite 3, Finite 0, Finite 3),
                   (Finite 1, Finite 0, Finite 1)],
          visualized = True\<rparr>"
proof -
  have h: "map (fixed_sampler [Finite 5, Finite 3, Finite 8, Finite 1, Finite 9] 0 (Finite 0) (Finite 10))
     [0..<5] = [Finite 5, Finite 3, Finite 8, Finite 1, Finite 9]"
    by code_simp
  from two_dimensional_scenario
      [of "fixed_sampler [Finite 5, Finite 3, Finite 8, Finite 1, Finite 9]", OF h] h
  show ?thesis
    by (simp add: fixed_sampler_def)
qed

text \<open>
  C5 (as stated): a sample count of 0 makes \<open>solve\<close> fail with an InvalidConfiguration
  error. The code has no such check: the arrays are empty, the loop body never runs, and
  \<open>solve\<close> returns \<open>+infinity\<close>.
\<close>

theorem zero_samples_returns_infinity:
  "solve (fixed_sampler []) (example_solution 3) 0 first_coordinate =
     Inr \<lparr>return_value = PosInf, trace = [], visualized = False\<rparr>"
  by code_simp

text \<open>
  C5 (amended): with a sample count of 0, \<open>solve\<close> evaluates nothing and returns
  \<open>+infinity\<close> with an empty trace. The configuration is never validated: a negative
  dimension fails with a ValueError when the solution object is built, a negative sample
  count fails with a ValueError in the random generation when the dimension is at least
  1, and every other dimension and any pair of bounds are accepted.
\<close>

theorem no_configuration_check:
  "solve rnd self 0 fnc =
     Inr \<lparr>return_value = PosInf, trace = [], visualized = (dimension self = 2)\<rparr> \<and>
   (point_count < 0 \<and> 1 \<le> dimension self \<longrightarrow> solve rnd self point_count fnc = Inl ValueError) \<and>
   (d < 0 \<longrightarrow> Solution_init d lb ub = Inl ValueError) \<and>
   (0 \<le> d \<longrightarrow> Solution_init d lb ub =
      Inr \<lparr>dimension = d, lower_bound = lb, upper_bound = ub,
           parameters = replicate (nat d) (Finite 0)\<rparr>)"
proof (intro conjI impI)
  show "solve rnd self 0 fnc =
     Inr \<lparr>return_value = PosInf, trace = [], visualized = (dimension self = 2)\<rparr>"
    by (simp add: solve_def create_params_eq)
next
  assume "point_count < 0 \<and> 1 \<le> dimension self"
  then show "solve rnd self point_count fnc = Inl ValueError"
    by (simp add: solve_def create_params_eq)
qed (simp_all add: Solution_init_def)

theorem no_configuration_check_witness:
  "(- 1 :: int) < 0 \<and> 1 \<le> dimension (example_solution 2) \<and>
   solve (fixed_sampler []) (example_solution 2) (- 1) first_coordinate = Inl ValueError \<and>
   Solution_init (- 1) (Finite 0) (Finite 10) = Inl ValueError \<and>
   (0::int) \<le> 2 \<and>
   Solution_init 2 (Finite 10) (Finite 0) =
     Inr \<lparr>dimension = 2, lower_bound = Finite 10, upper_bound = Finite 0,
          parameters = replicate (nat 2) (Finite 0)\<rparr>"
  using no_configuration_check[of "fixed_sampler []" "example_solution 2" first_coordinate "- 1"
      "- 1" "Finite 0" "Finite 10"]
    no_configuration_check[of "fixed_sampler []" "example_solution 2" first_coordinate "- 1"
      2 "Finite 10" "Finite 0"]
  by (simp add: example_solution_def)

text \<open>
  C6: the entry point builds the solution object with \<open>BlindSearchSolution(2, 10, -10)\<close>.
  The constructor takes the lower bound before the upper bound, so the object holds the
  lower bound 10 and the upper bound -10, the reverse of the bounds the claim states;
  dimension 2, the sample count 20000 and the objective are as claimed.
\<close>

theorem main_bounds_swapped:
  "main_solution =
     Inr \<lparr>dimension = 2, lower_bound = Finite 10, upper_bound = Finite (- 10),
          parameters = [Finite 0, Finite 0]\<rparr> \<and>
   \<not> flt_less (Finite 10) (Finite (- 10)) \<and>
   main rnd sphere =
     solve rnd \<lparr>dimension = 2, lower_bound = Finite 10, upper_bound = Finite (- 10),
                parameters = [Finite 0, Finite 0]\<rparr> 20000 sphere"
proof -
  have "replicate (nat 2) (Finite 0) = [Finite 0, Finite 0]"
    by (simp add: numeral_2_eq_2)
  then have ms: "main_solution =
     Inr \<lparr>dimension = 2, lower_bound = Finite 10, upper_bound = Finite (- 10),
          parameters = [Finite 0, Finite 0]\<rparr>"
    by (simp add: main_solution_def Solution_init_def)
  show ?thesis unfolding main_def ms by simp
qed

text \<open>
  C7: a candidate whose value equals the current best value is not appended and leaves
  the state as it is. For an objective that is constantly a finite number \<open>c\<close> (7, say)
  and a sample count of at least 1, every run of \<open>solve\<close> that returns has the best
  value \<open>c\<close> and a trace of exactly one entry, the first candidate; from dimension 2 on
  \<open>solve\<close> does return.
\<close>

theorem ties_do_not_improve:
  "(select_args ps i [] = Inr arg \<and> fnc arg = Inr (best_value st) \<longrightarrow>
      search_step fnc ps i st = Inr st) \<and>
   (1 \<le> point_count \<and> solve rnd self point_count (constant_objective (Finite c)) = Inr r \<longrightarrow>
      return_value r = Finite c \<and>
      trace r = [(rnd 0 (lower_bound self) (upper_bound self) 0,
                  rnd 1 (lower_bound self) (upper_bound self) 0, Finite c)]) \<and>
   (1 \<le> point_count \<and> 2 \<le> dimension self \<longrightarrow>
      solve rnd self point_count (constant_objective (Finite c)) =
        Inr \<lparr>return_value = Finite c,
             trace = [(rnd 0 (lower_bound self) (upper_bound self) 0,
                       rnd 1 (lower_bound self) (upper_bound self) 0, Finite c)],
             visualized = (dimension self = 2)\<rparr>)"
proof -
  have tie: "search_step fnc ps i st = Inr st"
    if "select_args ps i [] = Inr arg \<and> fnc arg = Inr (best_value st)"
    using that by (auto intro: search_step_no_change simp: flt_less_irrefl)
  have total: "solve rnd self point_count (constant_objective (Finite c)) =
        Inr \<lparr>return_value = Finite c,
             trace = [(rnd 0 (lower_bound self) (upper_bound self) 0,
                       rnd 1 (lower_bound self) (upper_bound self) 0, Finite c)],
             visualized = (dimension self = 2)\<rparr>"
    if "1 \<le> point_count \<and> 2 \<le> dimension self"
  proof -
    from that have pc: "1 \<le> point_count" and d: "2 \<le> dimension self" by simp_all
    from pc d show ?thesis by (rule solve_constant)
  qed
  have one: "return_value r = Finite c \<and>
      trace r = [(rnd 0 (lower_bound self) (upper_bound self) 0,
                  rnd 1 (lower_bound self) (upper_bound self) 0, Finite c)]"
    if h: "1 \<le> point_count \<and>
           solve rnd self point_count (constant_objective (Finite c)) = Inr r"
  proof -
    from h have pc: "1 \<le> point_count"
      and run: "solve rnd self point_count (constant_objective (Finite c)) = Inr r"
      by simp_all
    from pc have pos: "0 < nat point_count" by simp
    have v: "constant_objective (Finite c) (candidate rnd self 0) = Inr (Finite c)"
      by (simp add: constant_objective_def)
    have lt: "flt_less (Finite c) PosInf" by simp
    have d: "2 \<le> dimension self"
      using run pos v lt by (rule solve_improving_dimension)
    from total pc d run show ?thesis by auto
  qed
  from tie one total show ?thesis by blast
qed

theorem ties_do_not_improve_witness:
  "select_args [[Finite 4, Finite 7], [Finite 0, Finite 0]] 1 [] = Inr [Finite 7, Finite 0] \<and>
   first_coordinate [Finite 7, Finite 0] =
     Inr (best_value \<lparr>best_value = Finite 7, best_points = [(Finite 7, Finite 1, Finite 7)]\<rparr>) \<and>
   search_step first_coordinate [[Finite 4, Finite 7], [Finite 0, Finite 0]] 1
     \<lparr>best_value = Finite 7, best_points = [(Finite 7, Finite 1, Finite 7)]\<rparr> =
     Inr \<lparr>best_value = Finite 7, best_points = [(Finite 7, Finite 1, Finite 7)]\<rparr> \<and>
   (1::int) \<le> 3 \<and> 2 \<le> dimension (example_solution 3) \<and>
   solve (fixed_sampler [Finite 5, Finite 3, Finite 8]) (example_solution 3) 3
     (constant_objective (Finite 7)) =
     Inr \<lparr>return_value = Finite 7, trace = [(Finite 5, Finite 0, Finite 7)],
          visualized = False\<rparr>"
proof -
  have a: "select_args [[Finite 4, Finite 7], [Finite 0, Finite 0]] 1 [] = Inr [Finite 7, Finite 0]"
    by simp
  have b: "first_coordinate [Finite 7, Finite 0] =
     Inr (best_value \<lparr>best_value = Finite 7, best_points = [(Finite 7, Finite 1, Finite 7)]\<rparr>)"
    by (simp add: first_coordinate_def)
  have c: "(1::int) \<le> 3 \<and> 2 \<le> dimension (example_solution 3)"
    by (simp add: example_solution_def)
  note t = ties_do_not_improve[of "[[Finite 4, Finite 7], [Finite 0, Finite 0]]" 1
      "[Finite 7, Finite 0]" first_coordinate
      "\<lparr>best_value = Finite 7, best_points = [(Finite 7, Finite 1, Finite 7)]\<rparr>"
      3 "fixed_sampler [Finite 5, Finite 3, Finite 8]" "example_solution 3" 7]
  from t a b have s: "search_step first_coordinate [[Finite 4, Finite 7], [Finite 0, Finite 0]] 1
     \<lparr>best_value = Finite 7, best_points = [(Finite 7, Finite 1, Finite 7)]\<rparr> =
     Inr \<lparr>best_value = Finite 7, best_points = [(Finite 7, Finite 1, Finite 7)]\<rparr>"
    by blast
  from t c have "solve (fixed_sampler [Finite 5, Finite 3, Finite 8]) (example_solution 3) 3
     (constant_objective (Finite 7)) =
     Inr \<lparr>return_value = Finite 7,
          trace = [(fixed_sampler [Finite 5, Finite 3, Finite 8] 0
                      (lower_bound (example_solution 3)) (upper_bound (example_solution 3)) 0,
                    fixed_sampler [Finite 5, Finite 3, Finite 8] 1
                      (lower_bound (example_solution 3)) (upper_bound (example_solution 3)) 0,
                    Finite 7)],
          visualized = (dimension (example_solution 3) = 2)\<rparr>"
    by blast
  then have r: "solve (fixed_sampler [Finite 5, Finite 3, Finite 8]) (example_solution 3) 3
     (constant_objective (Finite 7)) =
     Inr \<lparr>return_value = Finite 7, trace = [(Finite 5, Finite 0, Finite 7)],
          visualized = False\<rparr>"
    by (simp add: fixed_sampler_def example_solution_def)
  from a b s c r show ?thesis by blast
qed

text \<open>
  C8: a candidate whose objective value is NaN never counts as improving. A round whose
  value is NaN leaves the best value and the trace as they are, whatever the state, the
  initial one included; and in every run that returns, neither the best value nor the
  value of a trace entry is NaN.
\<close>

theorem nan_never_improves:
  "(select_args ps i [] = Inr arg \<and> fnc arg = Inr NaN \<longrightarrow> search_step fnc ps i st = Inr st) \<and>
   (solve rnd self point_count fnc = Inr r \<longrightarrow>
      \<not> is_nan (return_value r) \<and> (\<forall>p \<in> set (trace r). \<not> is_nan (point_value p)))"
proof (intro conjI impI ballI)
  assume "select_args ps i [] = Inr arg \<and> fnc arg = Inr NaN"
  then show "search_step fnc ps i st = Inr st"
    by (auto intro: search_step_no_change)
next
  assume "solve rnd self point_count fnc = Inr r"
  from trace_inv_not_nan[OF solve_inv[OF this]] show "\<not> is_nan (return_value r)" by simp
next
  fix p
  assume run: "solve rnd self point_count fnc = Inr r" and p: "p \<in> set (trace r)"
  from solve_inv[OF run] p have "flt_less (point_value p) PosInf"
    by (simp add: trace_inv_def)
  then show "\<not> is_nan (point_value p)" by (auto dest: flt_less_not_nan)
qed

theorem nan_never_improves_witness:
  "select_args [[Finite 0, Finite 1], [Finite 0, Finite 0]] 0 [] = Inr [Finite 0, Finite 0] \<and>
   nan_at_zero [Finite 0, Finite 0] = Inr NaN \<and>
   search_step nan_at_zero [[Finite 0, Finite 1], [Finite 0, Finite 0]] 0
     \<lparr>best_value = PosInf, best_points = []\<rparr> = Inr \<lparr>best_value = PosInf, best_points = []\<rparr> \<and>
   solve (fixed_sampler [Finite 0, Finite 1]) (example_solution 3) 2 nan_at_zero =
     Inr \<lparr>return_value = Finite 1, trace = [(Finite 1, Finite 0, Finite 1)],
          visualized = False\<rparr> \<and>
   \<not> is_nan (Finite 1) \<and> \<not> is_nan (point_value (Finite 1, Finite 0, Finite 1))"
proof -
  have a: "select_args [[Finite 0, Finite 1], [Finite 0, Finite 0]] 0 [] = Inr [Finite 0, Finite 0]"
    by simp
  have b: "nan_at_zero [Finite 0, Finite 0] = Inr NaN"
    by (simp add: nan_at_zero_def)
  have run: "solve (fixed_sampler [Finite 0, Finite 1]) (example_solution 3) 2 nan_at_zero =
     Inr \<lparr>return_value = Finite 1, trace = [(Finite 1, Finite 0, Finite 1)],
          visualized = False\<rparr>"
    by code_simp
  note t = nan_never_improves[of "[[Finite 0, Finite 1], [Finite 0, Finite 0]]" 0
      "[Finite 0, Finite 0]" nan_at_zero "\<lparr>best_value = PosInf, best_points = []\<rparr>"
      "fixed_sampler [Finite 0, Finite 1]" "example_solution 3" 2
      "\<lparr>return_value = Finite 1, trace = [(Finite 1, Finite 0, Finite 1)], visualized = False\<rparr>"]
  from t a b have s: "search_step nan_at_zero [[Finite 0, Finite 1], [Finite 0, Finite 0]] 0
     \<lparr>best_value = PosInf, best_points = []\<rparr> = Inr \<lparr>best_value = PosInf, best_points = []\<rparr>"
    by blast
  from t run have "\<not> is_nan (Finite 1) \<and> \<not> is_nan (point_value (Finite 1, Finite 0, Finite 1))"
    by simp
  with a b s run show ?thesis by blast
qed

text \<open>
  C9: with the candidate sequence and the objective fixed, \<open>solve\<close> is a function of
  them. Two runs whose solution objects have the same dimension, whose random sources
  give the same candidates and whose objectives agree on these candidates end with the
  same outcome: the same error, or the same trace and the same best value.
\<close>

theorem solve_deterministic:
  assumes "dimension self1 = dimension self2"
    and "\<forall>i<nat pc. candidate rnd1 self1 i = candidate rnd2 self2 i"
    and "\<forall>i<nat pc. fnc1 (candidate rnd1 self1 i) = fnc2 (candidate rnd1 self1 i)"
  shows "solve rnd1 self1 pc fnc1 = solve rnd2 self2 pc fnc2"
proof (cases "pc < 0 \<and> [0..<nat (dimension self1)] \<noteq> []")
  case True
  with assms(1) show ?thesis by (simp add: solve_def create_params_eq)
next
  case False
  let ?ps1 = "map (\<lambda>x. map (rnd1 x (lower_bound self1) (upper_bound self1)) [0..<nat pc])
                [0..<nat (dimension self1)]"
  let ?ps2 = "map (\<lambda>x. map (rnd2 x (lower_bound self2) (upper_bound self2)) [0..<nat pc])
                [0..<nat (dimension self2)]"
  have ps1: "create_params rnd1 self1 pc [0..<nat (dimension self1)] [] = Inr ?ps1"
    using False by (simp add: create_params_eq)
  have ps2: "create_params rnd2 self2 pc [0..<nat (dimension self2)] [] = Inr ?ps2"
    using False assms(1) by (simp add: create_params_eq)
  have "\<forall>i \<in> set [0..<nat pc]. select_args ?ps1 i [] = select_args ?ps2 i [] \<and>
          (\<forall>arg. select_args ?ps1 i [] = Inr arg \<longrightarrow> fnc1 arg = fnc2 arg)"
  proof
    fix i assume "i \<in> set [0..<nat pc]"
    then have i: "i < nat pc" by simp
    have s1: "select_args ?ps1 i [] = Inr (candidate rnd1 self1 i)"
      using ps1 i by (rule select_args_created)
    have s2: "select_args ?ps2 i [] = Inr (candidate rnd2 self2 i)"
      using ps2 i by (rule select_args_created)
    from s1 s2 assms(2,3) i
    show "select_args ?ps1 i [] = select_args ?ps2 i [] \<and>
          (\<forall>arg. select_args ?ps1 i [] = Inr arg \<longrightarrow> fnc1 arg = fnc2 arg)"
      by simp
  qed
  then have "search_loop fnc1 ?ps1 [0..<nat pc] \<lparr>best_value = PosInf, best_points = []\<rparr> =
      search_loop fnc2 ?ps2 [0..<nat pc] \<lparr>best_value = PosInf, best_points = []\<rparr>"
    by (rule search_loop_cong)
  then show ?thesis
    unfolding solve_def ps1 ps2 using assms(1) by (simp split: sum.splits)
qed

theorem solve_deterministic_witness:
  "dimension (example_solution 2) =
     dimension \<lparr>dimension = 2, lower_bound = Finite (- 1), upper_bound = Finite 1,
                parameters = []\<rparr> \<and>
   solve (fixed_sampler [Finite 5, Finite 3]) (example_solution 2) 2 first_coordinate =
   solve (fixed_sampler [Finite 5, Finite 3, Finite 8])
     \<lparr>dimension = 2, lower_bound = Finite (- 1), upper_bound = Finite 1, parameters = []\<rparr>
     2 nan_at_zero \<and>
   solve (fixed_sampler [Finite 5, Finite 3]) (example_solution 2) 2 first_coordinate =
     Inr \<lparr>return_value = Finite 3,
          trace = [(Finite 5, Finite 0, Finite 5), (Finite 3, Finite 0, Finite 3)],
          visualized = True\<rparr>"
proof -
  let ?s2 = "\<lparr>dimension = 2, lower_bound = Finite (- 1), upper_bound = Finite 1,
              parameters = []\<rparr>"
  have d: "dimension (example_solution 2) = dimension ?s2"
    by (simp add: example_solution_def)
  have c: "\<forall>i<nat 2. candidate (fixed_sampler [Finite 5, Finite 3]) (example_solution 2) i =
      candidate (fixed_sampler [Finite 5, Finite 3, Finite 8]) ?s2 i"
    by (auto simp: less_2_cases_iff candidate_def upt_conv_Cons fixed_sampler_def
        example_solution_def)
  have f: "\<forall>i<nat 2. first_coordinate
        (candidate (fixed_sampler [Finite 5, Finite 3]) (example_solution 2) i) =
      nan_at_zero (candidate (fixed_sampler [Finite 5, Finite 3]) (example_solution 2) i)"
    by (auto simp: less_2_cases_iff candidate_def upt_conv_Cons fixed_sampler_def
        example_solution_def first_coordinate_def nan_at_zero_def)
  have run: "solve (fixed_sampler [Finite 5, Finite 3]) (example_solution 2) 2 first_coordinate =
     Inr \<lparr>return_value = Finite 3,
          trace = [(Finite 5, Finite 0, Finite 5), (Finite 3, Finite 0, Finite 3)],
          visualized = True\<rparr>"
    by code_simp
  from solve_deterministic[OF d c f] d run show ?thesis by simp
qed

text \<open>
  C10: a trace entry is the triple of the candidate's first coordinate, its second
  coordinate and its value, whatever the dimension: in every run that returns, each
  entry comes from some candidate \<open>i\<close> and holds the values of axes 0 and 1 at \<open>i\<close> and
  the objective value, so the coordinates of further axes are not in the trace. A round
  that improves on a candidate of a single coordinate raises IndexError, and with
  dimension 1 a run with a candidate whose value is below \<open>+infinity\<close> does not return.
\<close>

theorem trace_entries_are_triples:
  "(solve rnd self point_count fnc = Inr r \<longrightarrow>
      (\<forall>p \<in> set (trace r). \<exists>i<nat point_count.
          fnc (candidate rnd self i) = Inr (point_value p) \<and>
          p = (rnd 0 (lower_bound self) (upper_bound self) i,
               rnd 1 (lower_bound self) (upper_bound self) i, point_value p))) \<and>
   (select_args ps j [] = Inr [a0] \<and> fnc [a0] = Inr v \<and> flt_less v (best_value st) \<longrightarrow>
      search_step fnc ps j st = Inl IndexError) \<and>
   (dimension self = 1 \<and> k < nat point_count \<and> fnc (candidate rnd self k) = Inr w \<and>
    flt_less w PosInf \<longrightarrow> (\<exists>e. solve rnd self point_count fnc = Inl e))"
proof -
  have entries: "\<forall>p \<in> set (trace r). \<exists>i<nat point_count.
          fnc (candidate rnd self i) = Inr (point_value p) \<and>
          p = (rnd 0 (lower_bound self) (upper_bound self) i,
               rnd 1 (lower_bound self) (upper_bound self) i, point_value p)"
    if "solve rnd self point_count fnc = Inr r"
    using that by (blast dest: solve_entries_coordinates)
  have step: "search_step fnc ps j st = Inl IndexError"
    if "select_args ps j [] = Inr [a0] \<and> fnc [a0] = Inr v \<and> flt_less v (best_value st)"
    using that by (simp add: search_step_def)
  have run: "\<exists>e. solve rnd self point_count fnc = Inl e"
    if h: "dimension self = 1 \<and> k < nat point_count \<and> fnc (candidate rnd self k) = Inr w \<and>
           flt_less w PosInf"
  proof (cases "solve rnd self point_count fnc")
    case (Inl e)
    then show ?thesis by blast
  next
    case (Inr r')
    from h have "k < nat point_count" "fnc (candidate rnd self k) = Inr w" "flt_less w PosInf"
      by simp_all
    with Inr have "2 \<le> dimension self" by (rule solve_improving_dimension)
    with h show ?thesis by simp
  qed
  from entries step run show ?thesis by blast
qed

theorem trace_entries_are_triples_witness:
  "solve (fixed_sampler [Finite 5, Finite 3]) (example_solution 3) 2 first_coordinate =
     Inr \<lparr>return_value = Finite 3,
          trace = [(Finite 5, Finite 0, Finite 5), (Finite 3, Finite 0, Finite 3)],
          visualized = False\<rparr> \<and>
   (\<exists>i<nat 2.
      first_coordinate (candidate (fixed_sampler [Finite 5, Finite 3]) (example_solution 3) i) =
        Inr (point_value (Finite 3, Finite 0, Finite 3)) \<and>
      (Finite 3, Finite 0, Finite 3) =
        (fixed_sampler [Finite 5, Finite 3] 0 (lower_bound (example_solution 3))
           (upper_bound (example_solution 3)) i,
         fixed_sampler [Finite 5, Finite 3] 1 (lower_bound (example_solution 3))
           (upper_bound (example_solution 3)) i,
         point_value (Finite 3, Finite 0, Finite 3))) \<and>
   select_args [[Finite 5, Finite 3]] 0 [] = Inr [Finite 5] \<and>
   first_coordinate [Finite 5] = Inr (Finite 5) \<and>
   flt_less (Finite 5) (best_value \<lparr>best_value = PosInf, best_points = []\<rparr>) \<and>
   search_step first_coordinate [[Finite 5, Finite 3]] 0
     \<lparr>best_value = PosInf, best_points = []\<rparr> = Inl IndexError \<and>
   dimension (example_solution 1) = 1 \<and> (1::nat) < nat 2 \<and>
   first_coordinate (candidate (fixed_sampler [Finite 5, Finite 3]) (example_solution 1) 1) =
     Inr (Finite 3) \<and>
   flt_less (Finite 3) PosInf \<and>
   (\<exists>e. solve (fixed_sampler [Finite 5, Finite 3]) (example_solution 1) 2 first_coordinate =
      Inl e)"
proof -
  have run3: "solve (fixed_sampler [Finite 5, Finite 3]) (example_solution 3) 2 first_coordinate =
     Inr \<lparr>return_value = Finite 3,
          trace = [(Finite 5, Finite 0, Finite 5), (Finite 3, Finite 0, Finite 3)],
          visualized = False\<rparr>"
    by code_simp
  have a: "select_args [[Finite 5, Finite 3]] 0 [] = Inr [Finite 5]" by simp
  have b: "first_coordinate [Finite 5] = Inr (Finite 5)" by (simp add: first_coordinate_def)
  have c: "flt_less (Finite 5) (best_value \<lparr>best_value = PosInf, best_points = []\<rparr>)" by simp
  have d: "dimension (example_solution 1) = 1" by (simp add: example_solution_def)
  have e: "(1::nat) < nat 2" by simp
  have f: "first_coordinate (candidate (fixed_sampler [Finite 5, Finite 3]) (example_solution 1) 1) =
     Inr (Finite 3)"
    by code_simp
  have g: "flt_less (Finite 3) PosInf" by simp
  note t1 = trace_entries_are_triples[of "fixed_sampler [Finite 5, Finite 3]" "example_solution 3" 2
      first_coordinate
      "\<lparr>return_value = Finite 3,
        trace = [(Finite 5, Finite 0, Finite 5), (Finite 3, Finite 0, Finite 3)],
        visualized = False\<rparr>"
      "[[Finite 5, Finite 3]]" 0 "Finite 5" "Finite 5"
      "\<lparr>best_value = PosInf, best_points = []\<rparr>"]
  note t2 = trace_entries_are_triples[of "fixed_sampler [Finite 5, Finite 3]" "example_solution 1" 2
      first_coordinate _ _ _ _ _ _ 1 "Finite 3"]
  from t1 run3 have p1: "\<exists>i<nat 2.
      first_coordinate (candidate (fixed_sampler [Finite 5, Finite 3]) (example_solution 3) i) =
        Inr (point_value (Finite 3, Finite 0, Finite 3)) \<and>
      (Finite 3, Finite 0, Finite 3) =
        (fixed_sampler [Finite 5, Finite 3] 0 (lower_bound (example_solution 3))
           (upper_bound (example_solution 3)) i,
         fixed_sampler [Finite 5, Finite 3] 1 (lower_bound (example_solution 3))
           (upper_bound (example_solution 3)) i,
         point_value (Finite 3, Finite 0, Finite 3))"
    by simp
  from t1 a b c have p2: "search_step first_coordinate [[Finite 5, Finite 3]] 0
     \<lparr>best_value = PosInf, best_points = []\<rparr> = Inl IndexError"
    by blast
  from t2 d e f g
  have p3: "\<exists>e. solve (fixed_sampler [Finite 5, Finite 3]) (example_solution 1) 2 first_coordinate =
      Inl e"
    by blast
  from run3 p1 a b c p2 d e f g p3 show ?thesis by blast
qed

end
